theory Spec2Isabelle
  imports Complex_Main "HOL-Library.Word"
begin

section \<open>Values of the host language\<close>

text \<open>
  A JavaScript string is a sequence of UTF-16 code units; \<open>.length\<close> counts code units and
  \<open>===\<close> compares them one by one. \<open>js\<close> writes an ASCII literal of the source.
\<close>

type_synonym jsstring = "16 word list"

definition js :: "string \<Rightarrow> jsstring" where
  "js s = map of_char s"

text \<open>
  A JavaScript number is a double: a real value, one of the two infinities, or NaN. Only the
  comparisons \<open>>=\<close> and \<open><=\<close> of the source are needed; both are false as soon as one side
  is NaN. (The two zeros compare equal, so they are not told apart.)
\<close>

datatype number = NaN | NegInf | Fin real | PosInf

fun num_le :: "number \<Rightarrow> number \<Rightarrow> bool" where
  "num_le NaN _ = False"
| "num_le _ NaN = False"
| "num_le NegInf _ = True"
| "num_le _ PosInf = True"
| "num_le (Fin x) (Fin y) = (x \<le> y)"
| "num_le _ _ = False"

definition num_ge :: "number \<Rightarrow> number \<Rightarrow> bool" where
  "num_ge a b = num_le b a"

section \<open>The data model\<close>

datatype ProjectStatus = Active | Finished

text \<open>The class \<open>Project\<close>; every field is public and writable.\<close>

record Project =
  id' :: jsstring
  title :: jsstring
  description :: jsstring
  numPeople :: number
  status :: ProjectStatus

text \<open>
  Objects and arrays of JavaScript are references. The heap holds what a listener can reach:
  the \<open>Project\<close> objects (\<open>objs\<close>), the \<open>Project[]\<close> arrays that \<open>slice()\<close> creates
  (\<open>arrs\<close>, each an array of references to \<open>Project\<close> objects), and whatever the listeners
  own themselves (\<open>view\<close>: the components and the page). An address is an index; allocation
  appends.
\<close>

type_synonym ref = nat

record 'v heap =
  objs :: "Project list"
  arrs :: "ref list list"
  view :: 'v

text \<open>
  \<open>type Listener<T> = (items: T[]) => void\<close>: a listener is called with the address of an
  array and acts on the heap. A listener is taken to return (one that throws aborts the round)
  and not to call the store's methods from within the round, as the listeners that the source
  registers do. The store's two arrays are private, so a listener has no other way to them.
\<close>

type_synonym 'v Listener = "ref \<Rightarrow> 'v heap \<Rightarrow> 'v heap"

text \<open>
  The fields of a \<open>ProjectState\<close> object: \<open>listeners\<close> (inherited from \<open>State\<close>) and the
  private array \<open>projects\<close>, which holds references to \<open>Project\<close> objects in insertion order.
\<close>

record 'v ProjectState =
  listeners :: "'v Listener list"
  projects :: "ref list"

text \<open>
  The world of the store's methods: the object \<open>projectState\<close> they are called on, the heap,
  and \<open>calls\<close>, the record of every invocation of a listener so far (the position of the
  listener in \<open>listeners\<close>, the address of the array it was handed, and what that array held
  when it was handed over). Listeners act on the heap only, so they cannot touch the record.
\<close>

type_synonym call = "nat \<times> ref \<times> ref list"

record 'v world =
  projectState :: "'v ProjectState"
  heap :: "'v heap"
  calls :: "call list"

section \<open>The store: \<open>State\<close> and \<open>ProjectState\<close>\<close>

text \<open>\<open>new ProjectState()\<close>: both arrays start empty.\<close>

definition new_ProjectState :: "'v ProjectState" where
  "new_ProjectState = \<lparr>listeners = [], projects = []\<rparr>"

text \<open>\<open>addListener(listenerFn) { this.listeners.push(listenerFn); }\<close>\<close>

definition addListener :: "'v Listener \<Rightarrow> 'v world \<Rightarrow> 'v world" where
  "addListener listenerFn w =
     w\<lparr>projectState := (projectState w)\<lparr>listeners := listeners (projectState w) @ [listenerFn]\<rparr>\<rparr>"

text \<open>
  \<open>for (const listenerFn of this.listeners) { listenerFn(this.projects.slice()); }\<close>
  The loop over the listeners, \<open>i\<close> the position of the next one. Each turn allocates a new
  array holding the references of \<open>this.projects\<close>, calls the listener with its address and
  records the call.
\<close>

fun callListeners :: "'v Listener list \<Rightarrow> nat \<Rightarrow> 'v world \<Rightarrow> 'v world" where
  "callListeners [] i w = w"
| "callListeners (listenerFn # rest) i w =
     (let snapshot = projects (projectState w);
          a = length (arrs (heap w));
          h = (heap w)\<lparr>arrs := arrs (heap w) @ [snapshot]\<rparr>
      in callListeners rest (Suc i)
           (w\<lparr>heap := listenerFn a h, calls := calls w @ [(i, a, snapshot)]\<rparr>))"

definition updateListeners :: "'v world \<Rightarrow> 'v world" where
  "updateListeners w = callListeners (listeners (projectState w)) 0 w"

text \<open>
  \<open>addProject(title, description, numPeople)\<close> of the later source file. The argument \<open>r\<close> is
  the string that \<open>Math.random().toString()\<close> yields in this call.
\<close>

definition addProject :: "jsstring \<Rightarrow> jsstring \<Rightarrow> jsstring \<Rightarrow> number \<Rightarrow> 'v world \<Rightarrow> 'v world" where
  "addProject r title0 description0 numPeople0 w =
     (let newProject = \<lparr>id' = r, title = title0, description = description0,
                         numPeople = numPeople0, status = Active\<rparr>;
          a = length (objs (heap w));
          w1 = w\<lparr>heap := (heap w)\<lparr>objs := objs (heap w) @ [newProject]\<rparr>,
                 projectState := (projectState w)\<lparr>projects := projects (projectState w) @ [a]\<rparr>\<rparr>
      in updateListeners w1)"

text \<open>
  \<open>moveProject(projectId, newStatus)\<close>: \<open>find\<close> yields the first project of the array whose id
  is \<open>projectId\<close>, or \<open>undefined\<close>.
\<close>

definition moveProject :: "jsstring \<Rightarrow> ProjectStatus \<Rightarrow> 'v world \<Rightarrow> 'v world" where
  "moveProject projectId newStatus w =
     (case find (\<lambda>prj. id' (objs (heap w) ! prj) = projectId) (projects (projectState w)) of
        None \<Rightarrow> w
      | Some project \<Rightarrow>
          if status (objs (heap w) ! project) \<noteq> newStatus
          then updateListeners
                 (w\<lparr>heap := (heap w)\<lparr>objs := (objs (heap w))
                       [project := (objs (heap w) ! project)\<lparr>status := newStatus\<rparr>]\<rparr>\<rparr>)
          else w)"

text \<open>
  \<open>addProject\<close> of the earlier source file (\<open>src/app.ts\<close>). It takes the id from
  \<open>Math.random.toString()\<close>, with no call of \<open>random\<close>: the text of the function, the same
  string \<open>fnText\<close> every time. Its loop over the listeners is the one of \<open>updateListeners\<close>.
\<close>

definition addProject_app :: "jsstring \<Rightarrow> jsstring \<Rightarrow> jsstring \<Rightarrow> number \<Rightarrow> 'v world \<Rightarrow> 'v world" where
  "addProject_app fnText title0 description0 numPeople0 w =
     (let newProject = \<lparr>id' = fnText, title = title0, description = description0,
                         numPeople = numPeople0, status = Active\<rparr>;
          a = length (objs (heap w));
          w1 = w\<lparr>heap := (heap w)\<lparr>objs := objs (heap w) @ [newProject]\<rparr>,
                 projectState := (projectState w)\<lparr>projects := projects (projectState w) @ [a]\<rparr>\<rparr>
      in callListeners (listeners (projectState w1)) 0 w1)"

text \<open>
  The static side of the class: the field \<open>ProjectState.instance\<close> (\<open>None\<close> while it is
  undefined) and every object that \<open>new ProjectState()\<close> has made, an object's address being
  its position. The constructor is private, so \<open>getInstance\<close> is the only code that makes one.
\<close>

record 'v ProjectState_class =
  instance' :: "ref option"
  constructed :: "'v ProjectState list"

definition class_loaded :: "'v ProjectState_class" where
  "class_loaded = \<lparr>instance' = None, constructed = []\<rparr>"

definition getInstance :: "'v ProjectState_class \<Rightarrow> ref \<times> 'v ProjectState_class" where
  "getInstance c =
     (case instance' c of
        Some a \<Rightarrow> (a, c)
      | None \<Rightarrow>
          (let a = length (constructed c);
               c1 = c\<lparr>constructed := constructed c @ [new_ProjectState], instance' := Some a\<rparr>
           in (a, c1)))"

text \<open>\<open>n\<close> calls of \<open>getInstance\<close> in a row: the references they return and the final state.\<close>

fun getInstances :: "nat \<Rightarrow> 'v ProjectState_class \<Rightarrow> ref list \<times> 'v ProjectState_class" where
  "getInstances 0 c = ([], c)"
| "getInstances (Suc n) c =
     (case getInstance c of (a, c1) \<Rightarrow>
        (case getInstances n c1 of (as, c2) \<Rightarrow> (a # as, c2)))"

section \<open>Observing the store\<close>

text \<open>The world when the module has been loaded: a new store, an empty heap.\<close>

definition init_world :: "'v \<Rightarrow> 'v world" where
  "init_world v = \<lparr>projectState = new_ProjectState,
                   heap = \<lparr>objs = [], arrs = [], view = v\<rparr>, calls = []\<rparr>"

text \<open>The store's items, in the order of its array, and their ids.\<close>

definition items :: "'v world \<Rightarrow> Project list" where
  "items w = map (\<lambda>prj. objs (heap w) ! prj) (projects (projectState w))"

definition ids :: "'v world \<Rightarrow> jsstring list" where
  "ids w = map id' (items w)"

text \<open>
  Every reference of the store's array points to an allocated object, and no object is in the
  array twice.
\<close>

definition wf_world :: "'v world \<Rightarrow> bool" where
  "wf_world w \<longleftrightarrow>
     list_all (\<lambda>prj. prj < length (objs (heap w))) (projects (projectState w)) \<and>
     distinct (projects (projectState w))"

text \<open>What a recorded call says of the listener: its position and the array's contents.\<close>

definition told :: "call \<Rightarrow> nat \<times> ref list" where
  "told c = (fst c, snd (snd c))"


text \<open>
  A listener that writes to no \<open>Project\<close> object, as the listeners that the source registers
  (\<open>ProjectList.configure\<close>): they filter the array into a new one and render it.
\<close>

definition keeps_projects :: "'v Listener \<Rightarrow> bool" where
  "keeps_projects l \<longleftrightarrow> (\<forall>a h. objs (l a h) = objs h)"


text \<open>Sequences of calls of the store's public methods.\<close>

datatype 'v operation =
    AddProject jsstring jsstring jsstring number
  | MoveProject jsstring ProjectStatus
  | AddListener "'v Listener"

fun perform :: "'v operation \<Rightarrow> 'v world \<Rightarrow> 'v world" where
  "perform (AddProject r t d n) w = addProject r t d n w"
| "perform (MoveProject p s) w = moveProject p s w"
| "perform (AddListener l) w = addListener l w"

fun run :: "'v operation list \<Rightarrow> 'v world \<Rightarrow> 'v world" where
  "run [] w = w"
| "run (operation # rest) w = run rest (perform operation w)"

text \<open>The ids drawn by the \<open>addProject\<close> calls of a sequence, and the listeners it registers.\<close>

fun drawn :: "'v operation list \<Rightarrow> jsstring list" where
  "drawn [] = []"
| "drawn (AddProject r t d n # rest) = r # drawn rest"
| "drawn (_ # rest) = drawn rest"

fun registered :: "'v operation list \<Rightarrow> 'v Listener list" where
  "registered [] = []"
| "registered (AddListener l # rest) = l # registered rest"
| "registered (_ # rest) = registered rest"

section \<open>Validation and the form\<close>

text \<open>
  \<open>String.prototype.trim\<close> removes the white space and the line terminators of ECMAScript
  from both ends.
\<close>

definition isWhiteSpace :: "16 word \<Rightarrow> bool" where
  "isWhiteSpace c \<longleftrightarrow>
     c \<in> {0x09, 0x0A, 0x0B, 0x0C, 0x0D, 0x20, 0xA0, 0x1680, 0x2028, 0x2029, 0x202F, 0x205F,
          0x3000, 0xFEFF}
     \<or> (0x2000 \<le> c \<and> c \<le> 0x200A)"

definition trim :: "jsstring \<Rightarrow> jsstring" where
  "trim s = rev (dropWhile isWhiteSpace (rev (dropWhile isWhiteSpace s)))"

text \<open>\<open>value: string | number\<close>, and the interface \<open>Validatable\<close> with its optional bounds.\<close>

datatype jsvalue = Str jsstring | Num number

record Validatable =
  value' :: jsvalue
  required :: bool
  minLength :: "number option"
  maxLength :: "number option"
  min' :: "number option"
  max' :: "number option"

text \<open>
  \<open>value.toString().trim().length !== 0\<close>. The text of a number is never empty and holds no
  white space, so for a number the test succeeds.
\<close>

fun nonblank :: "jsvalue \<Rightarrow> bool" where
  "nonblank (Str s) = (length (trim s) \<noteq> 0)"
| "nonblank (Num n) = True"

text \<open>
  \<open>validate\<close>: five tests in a row, each guarded by the presence of its bound and by
  \<open>typeof value\<close>, each and-ed into \<open>isValid\<close>.
\<close>

definition validate :: "Validatable \<Rightarrow> bool" where
  "validate validatableInput =
     (let isValid0 = True;
          isValid1 = (if required validatableInput
                      then isValid0 \<and> nonblank (value' validatableInput) else isValid0);
          isValid2 = (case (minLength validatableInput, value' validatableInput) of
                        (Some m, Str s) \<Rightarrow> isValid1 \<and> num_ge (Fin (real (length s))) m
                      | _ \<Rightarrow> isValid1);
          isValid3 = (case (maxLength validatableInput, value' validatableInput) of
                        (Some m, Str s) \<Rightarrow> isValid2 \<and> num_le (Fin (real (length s))) m
                      | _ \<Rightarrow> isValid2);
          isValid4 = (case (min' validatableInput, value' validatableInput) of
                        (Some m, Num n) \<Rightarrow> isValid3 \<and> num_ge n m
                      | _ \<Rightarrow> isValid3);
          isValid5 = (case (max' validatableInput, value' validatableInput) of
                        (Some m, Num n) \<Rightarrow> isValid4 \<and> num_le n m
                      | _ \<Rightarrow> isValid4)
      in isValid5)"

text \<open>
  The form: the \<open>.value\<close> of its three input elements, each a string. The three objects that
  \<open>gatherUserInput\<close> builds from them; the one for the people holds the string as entered.
\<close>

record ProjectInput =
  titleInputElement :: jsstring
  descriptionInputElement :: jsstring
  peopleInputElement :: jsstring

definition titleValidatable :: "jsstring \<Rightarrow> Validatable" where
  "titleValidatable enteredTitle =
     \<lparr>value' = Str enteredTitle, required = True, minLength = None, maxLength = None,
      min' = None, max' = None\<rparr>"

definition descriptionValidatable :: "jsstring \<Rightarrow> Validatable" where
  "descriptionValidatable enteredDescription =
     \<lparr>value' = Str enteredDescription, required = True, minLength = Some (Fin 5),
      maxLength = Some (Fin 500), min' = None, max' = None\<rparr>"

definition peopleValidatable :: "jsstring \<Rightarrow> Validatable" where
  "peopleValidatable enteredPeople =
     \<lparr>value' = Str enteredPeople, required = True, minLength = None, maxLength = None,
      min' = Some (Fin 2), max' = Some (Fin 50)\<rparr>"

text \<open>
  \<open>gatherUserInput\<close> yields the messages it alerts and its return value, \<open>None\<close> for the bare
  \<open>return\<close>. \<open>toNumber\<close> is the conversion that the unary \<open>+\<close> applies to a string.
\<close>

definition gatherUserInput ::
  "(jsstring \<Rightarrow> number) \<Rightarrow> ProjectInput \<Rightarrow> jsstring list \<times> (jsstring \<times> jsstring \<times> number) option" where
  "gatherUserInput toNumber this =
     (let enteredTitle = titleInputElement this;
          enteredDescription = descriptionInputElement this;
          enteredPeople = peopleInputElement this
      in if \<not> validate (titleValidatable enteredTitle) \<and>
            \<not> validate (descriptionValidatable enteredDescription) \<and>
            \<not> validate (peopleValidatable enteredPeople)
         then ([js ''invalid input''], None)
         else ([], Some (enteredTitle, enteredDescription, toNumber enteredPeople)))"

section \<open>Drag and drop\<close>

text \<open>
  The platform's \<open>DataTransfer\<close>: the drag data store, one entry per format in the order the
  formats were added, and \<open>effectAllowed\<close>. \<open>types\<close> lists the formats, \<open>getData\<close> yields the
  data of a format or the empty string, \<open>setData\<close> replaces the entry of a format or appends
  one. Formats are taken in their canonical form, as \<open>'text/plain'\<close> is.
\<close>

record DataTransfer =
  entries :: "(jsstring \<times> jsstring) list"
  effectAllowed :: jsstring

definition types :: "DataTransfer \<Rightarrow> jsstring list" where
  "types dt = map fst (entries dt)"

definition getData :: "jsstring \<Rightarrow> DataTransfer \<Rightarrow> jsstring" where
  "getData format dt = (case map_of (entries dt) format of None \<Rightarrow> [] | Some d \<Rightarrow> d)"

definition setData :: "jsstring \<Rightarrow> jsstring \<Rightarrow> DataTransfer \<Rightarrow> DataTransfer" where
  "setData format d dt =
     dt\<lparr>entries := filter (\<lambda>e. fst e \<noteq> format) (entries dt) @ [(format, d)]\<rparr>"

text \<open>A \<open>DragEvent\<close>: its \<open>dataTransfer\<close>, which may be null, and whether it was cancelled.\<close>

record DragEvent =
  dataTransfer :: "DataTransfer option"
  defaultPrevented :: bool

definition preventDefault :: "DragEvent \<Rightarrow> DragEvent" where
  "preventDefault event = event\<lparr>defaultPrevented := True\<rparr>"

text \<open>\<open>classList.add\<close> and \<open>classList.remove\<close> of an element's class list.\<close>

definition classList_add :: "jsstring \<Rightarrow> jsstring list \<Rightarrow> jsstring list" where
  "classList_add token cl = (if token \<in> set cl then cl else cl @ [token])"

definition classList_remove :: "jsstring \<Rightarrow> jsstring list \<Rightarrow> jsstring list" where
  "classList_remove token cl = filter (\<lambda>t. t \<noteq> token) cl"

text \<open>
  A \<open>ProjectItem\<close> holds a reference to its project. A \<open>ProjectList\<close> has its fixed \<open>type\<close>,
  \<open>'active'\<close> or \<open>'finished'\<close>, and the class list of its \<open>ul\<close> element.
\<close>

record ProjectItem =
  project :: ref

datatype ListType = active | finished

record ProjectList =
  type' :: ListType
  ul_classList :: "jsstring list"

text \<open>
  \<open>ProjectItem.dragStartHandler\<close>. \<open>event.dataTransfer!\<close> fails with a TypeError on null:
  \<open>None\<close>.
\<close>

definition dragStartHandler :: "ProjectItem \<Rightarrow> 'v heap \<Rightarrow> DragEvent \<Rightarrow> DragEvent option" where
  "dragStartHandler this h event =
     (case dataTransfer event of
        None \<Rightarrow> None
      | Some dt \<Rightarrow>
          Some (event\<lparr>dataTransfer :=
                  Some ((setData (js ''text/plain'') (id' (objs h ! project this)) dt)
                          \<lparr>effectAllowed := js ''move''\<rparr>)\<rparr>))"

text \<open>
  \<open>ProjectList.dragOverHandler\<close>. \<open>types[0]\<close> of an empty list is \<open>undefined\<close>, which is not
  equal to a string.
\<close>

definition dragOverHandler :: "DragEvent \<Rightarrow> ProjectList \<Rightarrow> DragEvent \<times> ProjectList" where
  "dragOverHandler event this =
     (case dataTransfer event of
        None \<Rightarrow> (event, this)
      | Some dt \<Rightarrow>
          (case types dt of
             [] \<Rightarrow> (event, this)
           | first # _ \<Rightarrow>
               if first = js ''text/plain''
               then (preventDefault event,
                     this\<lparr>ul_classList := classList_add (js ''droppable'') (ul_classList this)\<rparr>)
               else (event, this)))"

text \<open>\<open>ProjectList.dragLeaveHandler\<close>\<close>

definition dragLeaveHandler :: "DragEvent \<Rightarrow> ProjectList \<Rightarrow> ProjectList" where
  "dragLeaveHandler event this =
     this\<lparr>ul_classList := classList_remove (js ''droppable'') (ul_classList this)\<rparr>"

text \<open>
  \<open>ProjectList.dropHandler\<close>, on the store \<open>projectState\<close> of the world. \<open>None\<close> is the TypeError
  of \<open>event.dataTransfer!\<close> on null.
\<close>

definition dropHandler :: "DragEvent \<Rightarrow> ProjectList \<Rightarrow> 'v world \<Rightarrow> 'v world option" where
  "dropHandler event this w =
     (case dataTransfer event of
        None \<Rightarrow> None
      | Some dt \<Rightarrow>
          (let prjId = getData (js ''text/plain'') dt;
               dropType = (if type' this = active then Active else Finished)
           in Some (moveProject prjId dropType w)))"

text \<open>
  The platform's part of a gesture: the payload hovers over the list, which gets \<open>dragover\<close>,
  and is released there. The platform sends \<open>drop\<close> only if the handler of \<open>dragover\<close>
  cancelled the event (the source's comment on \<open>preventDefault\<close>: ``allows drop event to
  happen''). The result tells the list, the world, and whether \<open>dropHandler\<close> was run.
\<close>

definition hoverAndRelease ::
  "DataTransfer option \<Rightarrow> ProjectList \<Rightarrow> 'v world \<Rightarrow> (ProjectList \<times> 'v world \<times> bool) option" where
  "hoverAndRelease payload this w =
     (let event = \<lparr>dataTransfer = payload, defaultPrevented = False\<rparr>;
          (over, this1) = dragOverHandler event this
      in if defaultPrevented over
         then (case dropHandler event this1 w of
                 None \<Rightarrow> None
               | Some w1 \<Rightarrow> Some (this1, w1, True))
         else Some (this1, w, False))"

section \<open>Example listeners and worlds\<close>

text \<open>
  \<open>(items) => { count++; }\<close>: a listener that counts its calls in the view and writes nothing
  else.
\<close>

definition count_listener :: "nat Listener" where
  "count_listener a h = h\<lparr>view := Suc (view h)\<rparr>"



text \<open>A new store with two counting listeners, and the same after two projects were added.\<close>

definition two_counters :: "nat world" where
  "two_counters = addListener count_listener (addListener count_listener (init_world 0))"

definition board_AB :: "nat world" where
  "board_AB = run [AddProject (js ''0.1'') (js ''A'') (js ''first item'') (Fin 2),
                   AddProject (js ''0.2'') (js ''B'') (js ''second item'') (Fin 3)] two_counters"



text \<open>
  Payloads of a drag: one that declares \<open>text/html\<close> only, one that declares \<open>text/html\<close> and
  then \<open>text/plain\<close>, one that is still empty, and the one that \<open>dragStartHandler\<close> makes of
  the empty one for the project with id \<open>0.2\<close>. A list of type \<open>'finished'\<close>, and the item
  that shows the second project.
\<close>

definition html_payload :: DataTransfer where
  "html_payload = \<lparr>entries = [(js ''text/html'', js ''<b>0.2</b>'')], effectAllowed = js ''all''\<rparr>"

definition html_then_plain_payload :: DataTransfer where
  "html_then_plain_payload =
     \<lparr>entries = [(js ''text/html'', js ''<b>0.2</b>''), (js ''text/plain'', js ''0.2'')],
      effectAllowed = js ''all''\<rparr>"

definition empty_payload :: DataTransfer where
  "empty_payload = \<lparr>entries = [], effectAllowed = js ''uninitialized''\<rparr>"

definition finished_list :: ProjectList where
  "finished_list = \<lparr>type' = finished, ul_classList = []\<rparr>"

definition plain_payload :: DataTransfer where
  "plain_payload = \<lparr>entries = [(js ''text/plain'', js ''0.2'')], effectAllowed = js ''move''\<rparr>"

definition item_B :: ProjectItem where
  "item_B = \<lparr>project = 1\<rparr>"

text \<open>A conversion of strings to numbers that is right on \<open>'3'\<close> and on blank strings.\<close>

definition toNumber3 :: "jsstring \<Rightarrow> number" where
  "toNumber3 s = (if s = js ''3'' then Fin 3 else if trim s = [] then Fin 0 else NaN)"

section \<open>The notification round\<close>

lemma callListeners_projectState:
  "projectState (callListeners ls i w) = projectState w"
  by (induction ls arbitrary: i w) (simp_all add: Let_def)

lemma callListeners_calls:
  "map told (calls (callListeners ls i w)) =
     map told (calls w) @ map (\<lambda>k. (k, projects (projectState w))) [i..<i + length ls]"
proof (induction ls arbitrary: i w)
  case Nil
  show ?case by simp
next
  case (Cons l ls)
  define w1 where
    "w1 = w\<lparr>heap := l (length (arrs (heap w)))
                      ((heap w)\<lparr>arrs := arrs (heap w) @ [projects (projectState w)]\<rparr>),
              calls := calls w @ [(i, length (arrs (heap w)), projects (projectState w))]\<rparr>"
  have run: "callListeners (l # ls) i w = callListeners ls (Suc i) w1"
    by (simp add: Let_def w1_def)
  have st: "projectState w1 = projectState w"
    by (simp add: w1_def)
  have tr: "map told (calls w1) = map told (calls w) @ [(i, projects (projectState w))]"
    by (simp add: w1_def told_def)
  have idx: "[i..<i + length (l # ls)] = i # [Suc i..<Suc i + length ls]"
    by (simp del: upt_Suc add: upt_conv_Cons)
  show ?case
    unfolding run idx Cons.IH [of "Suc i" w1] st tr by simp
qed

text \<open>
  What the round does to the heap: the listeners are applied one after the other, in the order
  of the list, each once, each to the address of an array allocated for it that holds the
  references of the store's array.
\<close>

lemma callListeners_heap:
  "heap (callListeners ls i w) =
     foldl (\<lambda>h l. l (length (arrs h)) (h\<lparr>arrs := arrs h @ [projects (projectState w)]\<rparr>))
       (heap w) ls"
  by (induction ls arbitrary: i w) (simp_all add: Let_def)

lemma updateListeners_heap:
  "heap (updateListeners w) =
     foldl (\<lambda>h l. l (length (arrs h)) (h\<lparr>arrs := arrs h @ [projects (projectState w)]\<rparr>))
       (heap w) (listeners (projectState w))"
  by (simp add: updateListeners_def callListeners_heap)

lemma callListeners_objs:
  "\<forall>l\<in>set ls. keeps_projects l \<Longrightarrow> objs (heap (callListeners ls i w)) = objs (heap w)"
  by (induction ls arbitrary: i w) (simp_all add: Let_def keeps_projects_def)

lemma updateListeners_projectState: "projectState (updateListeners w) = projectState w"
  by (simp add: updateListeners_def callListeners_projectState)

lemma updateListeners_calls:
  "map told (calls (updateListeners w)) =
     map told (calls w) @
     map (\<lambda>k. (k, projects (projectState w))) [0..<length (listeners (projectState w))]"
  using callListeners_calls [of "listeners (projectState w)" 0 w]
  by (simp add: updateListeners_def)

lemma updateListeners_calls_length:
  "length (calls (updateListeners w)) = length (calls w) + length (listeners (projectState w))"
  using arg_cong [OF updateListeners_calls [of w], of length] by simp

lemma updateListeners_objs:
  "\<forall>l\<in>set (listeners (projectState w)). keeps_projects l \<Longrightarrow>
   objs (heap (updateListeners w)) = objs (heap w)"
  by (simp add: updateListeners_def callListeners_objs)

lemma updateListeners_items:
  "\<forall>l\<in>set (listeners (projectState w)). keeps_projects l \<Longrightarrow>
   items (updateListeners w) = items w"
  by (simp add: items_def updateListeners_objs updateListeners_projectState)

section \<open>Adding a project\<close>

lemma addProject_projectState:
  "projectState (addProject r t d n w) =
     (projectState w)\<lparr>projects := projects (projectState w) @ [length (objs (heap w))]\<rparr>"
  by (simp add: addProject_def Let_def updateListeners_projectState)

lemma addProject_calls:
  "map told (calls (addProject r t d n w)) =
     map told (calls w) @
     map (\<lambda>k. (k, projects (projectState w) @ [length (objs (heap w))]))
       [0..<length (listeners (projectState w))]"
  by (simp add: addProject_def Let_def updateListeners_calls)

lemma addProject_heap:
  "heap (addProject r t d n w) =
     foldl (\<lambda>h l. l (length (arrs h))
                (h\<lparr>arrs := arrs h @ [projects (projectState w) @ [length (objs (heap w))]]\<rparr>))
       ((heap w)\<lparr>objs := objs (heap w) @
           [\<lparr>id' = r, title = t, description = d, numPeople = n, status = Active\<rparr>]\<rparr>)
       (listeners (projectState w))"
  by (simp add: addProject_def Let_def updateListeners_heap)

lemma addProject_objs:
  "\<forall>l\<in>set (listeners (projectState w)). keeps_projects l \<Longrightarrow>
   objs (heap (addProject r t d n w)) =
     objs (heap w) @ [\<lparr>id' = r, title = t, description = d, numPeople = n, status = Active\<rparr>]"
  by (simp add: addProject_def Let_def updateListeners_objs)

lemma addProject_items:
  assumes "wf_world w" and "\<forall>l\<in>set (listeners (projectState w)). keeps_projects l"
  shows "items (addProject r t d n w) =
     items w @ [\<lparr>id' = r, title = t, description = d, numPeople = n, status = Active\<rparr>]"
proof -
  have "\<forall>prj\<in>set (projects (projectState w)). prj < length (objs (heap w))"
    using assms(1) by (simp add: wf_world_def list_all_iff)
  then show ?thesis
    by (simp add: items_def addProject_projectState addProject_objs [OF assms(2)] nth_append)
qed

lemma addProject_wf:
  assumes "wf_world w" and "\<forall>l\<in>set (listeners (projectState w)). keeps_projects l"
  shows "wf_world (addProject r t d n w)"
  using assms(1)
  by (auto simp: wf_world_def list_all_iff addProject_projectState addProject_objs [OF assms(2)])

lemma keeps_projects_count_listener: "keeps_projects count_listener"
  by (simp add: keeps_projects_def count_listener_def)

lemma two_counters_eval:
  "two_counters = \<lparr>projectState = \<lparr>listeners = [count_listener, count_listener], projects = []\<rparr>,
                   heap = \<lparr>objs = [], arrs = [], view = 0\<rparr>, calls = []\<rparr>"
  by (simp add: two_counters_def addListener_def init_world_def new_ProjectState_def)

text \<open>
  Claim C2. For every world and every call \<open>addProject(title, description, numPeople)\<close>: the
  call is the notification round run on the world in which a new \<open>Project\<close> with status
  \<open>Active\<close> has been pushed at the end of the store's array; the array afterwards is the old
  one followed by the new reference, the listeners are the same, and the round has called
  every listener once, in the order of registration, each with an array holding the old
  references followed by the new one. The heap afterwards is the heap with the new project
  to which the listeners have been applied one after the other, in the order of
  registration, each once, each to a newly allocated array that holds the old references
  followed by the new one. Where the listeners write to no project, the store's
  items afterwards are the old items followed by the new one, still \<open>Active\<close>.
\<close>

theorem addProject_appends_then_notifies:
  "addProject r t d n w =
     updateListeners
       (w\<lparr>heap := (heap w)\<lparr>objs := objs (heap w) @
               [\<lparr>id' = r, title = t, description = d, numPeople = n, status = Active\<rparr>]\<rparr>,
          projectState := (projectState w)\<lparr>projects :=
               projects (projectState w) @ [length (objs (heap w))]\<rparr>\<rparr>) \<and>
   projects (projectState (addProject r t d n w)) =
     projects (projectState w) @ [length (objs (heap w))] \<and>
   listeners (projectState (addProject r t d n w)) = listeners (projectState w) \<and>
   map told (calls (addProject r t d n w)) =
     map told (calls w) @
     map (\<lambda>k. (k, projects (projectState w) @ [length (objs (heap w))]))
       [0..<length (listeners (projectState w))] \<and>
   heap (addProject r t d n w) =
     foldl (\<lambda>h l. l (length (arrs h))
                (h\<lparr>arrs := arrs h @ [projects (projectState w) @ [length (objs (heap w))]]\<rparr>))
       ((heap w)\<lparr>objs := objs (heap w) @
           [\<lparr>id' = r, title = t, description = d, numPeople = n, status = Active\<rparr>]\<rparr>)
       (listeners (projectState w)) \<and>
   (wf_world w \<and> (\<forall>l\<in>set (listeners (projectState w)). keeps_projects l) \<longrightarrow>
      items (addProject r t d n w) =
        items w @ [\<lparr>id' = r, title = t, description = d, numPeople = n, status = Active\<rparr>])"
proof -
  have "addProject r t d n w =
     updateListeners
       (w\<lparr>heap := (heap w)\<lparr>objs := objs (heap w) @
               [\<lparr>id' = r, title = t, description = d, numPeople = n, status = Active\<rparr>]\<rparr>,
          projectState := (projectState w)\<lparr>projects :=
               projects (projectState w) @ [length (objs (heap w))]\<rparr>\<rparr>)"
    by (simp add: addProject_def Let_def)
  moreover have "projects (projectState (addProject r t d n w)) =
     projects (projectState w) @ [length (objs (heap w))]"
    by (simp add: addProject_projectState)
  moreover have "listeners (projectState (addProject r t d n w)) = listeners (projectState w)"
    by (simp add: addProject_projectState)
  moreover note addProject_calls [of r t d n w]
  moreover note addProject_heap [of r t d n w]
  moreover have "wf_world w \<and> (\<forall>l\<in>set (listeners (projectState w)). keeps_projects l) \<longrightarrow>
      items (addProject r t d n w) =
        items w @ [\<lparr>id' = r, title = t, description = d, numPeople = n, status = Active\<rparr>]"
    using addProject_items by blast
  ultimately show ?thesis by blast
qed

theorem addProject_appends_then_notifies_witness:
  "items (addProject (js ''0.5'') (js ''Build API'') (js ''Design and implement'') (Fin 3)
            two_counters) =
     [\<lparr>id' = js ''0.5'', title = js ''Build API'', description = js ''Design and implement'',
       numPeople = Fin 3, status = Active\<rparr>] \<and>
   map told (calls (addProject (js ''0.5'') (js ''Build API'') (js ''Design and implement'') (Fin 3)
            two_counters)) = [(0, [0]), (1, [0])] \<and>
   view (heap (addProject (js ''0.5'') (js ''Build API'') (js ''Design and implement'') (Fin 3)
            two_counters)) = 2 \<and>
   arrs (heap (addProject (js ''0.5'') (js ''Build API'') (js ''Design and implement'') (Fin 3)
            two_counters)) = [[0], [0]]"
proof -
  have wf: "wf_world two_counters"
    by (simp add: two_counters_eval wf_world_def)
  have keeps: "\<forall>l\<in>set (listeners (projectState two_counters)). keeps_projects l"
    by (simp add: two_counters_eval keeps_projects_count_listener)
  have none: "items two_counters = []" "calls two_counters = []"
    "projects (projectState two_counters) = []" "objs (heap two_counters) = []"
    "length (listeners (projectState two_counters)) = 2"
    by (simp_all add: two_counters_eval items_def)
  have before: "listeners (projectState two_counters) = [count_listener, count_listener]"
    "heap two_counters = \<lparr>objs = [], arrs = [], view = 0\<rparr>"
    by (simp_all add: two_counters_eval)
  note T = addProject_appends_then_notifies
      [of "js ''0.5''" "js ''Build API''" "js ''Design and implement''" "Fin 3" two_counters,
       THEN conjunct2]
  note calls_part = T [THEN conjunct2, THEN conjunct2, THEN conjunct1]
  note heap_part = T [THEN conjunct2, THEN conjunct2, THEN conjunct2, THEN conjunct1]
  note items_part = T [THEN conjunct2, THEN conjunct2, THEN conjunct2, THEN conjunct2]
  have "items (addProject (js ''0.5'') (js ''Build API'') (js ''Design and implement'') (Fin 3)
            two_counters) =
     [\<lparr>id' = js ''0.5'', title = js ''Build API'', description = js ''Design and implement'',
       numPeople = Fin 3, status = Active\<rparr>]"
    using items_part wf keeps by (simp add: none)
  moreover have "map told (calls (addProject (js ''0.5'') (js ''Build API'')
            (js ''Design and implement'') (Fin 3) two_counters)) = [(0, [0]), (1, [0])]"
    using calls_part by (simp add: none upt_rec)
  moreover have "view (heap (addProject (js ''0.5'') (js ''Build API'')
            (js ''Design and implement'') (Fin 3) two_counters)) = 2"
    and "arrs (heap (addProject (js ''0.5'') (js ''Build API'')
            (js ''Design and implement'') (Fin 3) two_counters)) = [[0], [0]]"
    unfolding heap_part by (simp_all add: before none count_listener_def)
  ultimately show ?thesis by simp
qed

section \<open>Moving a project\<close>

lemma moveProject_projectState: "projectState (moveProject p s w) = projectState w"
  by (simp add: moveProject_def updateListeners_projectState split: option.splits)

lemma moveProject_calls_length:
  "length (calls (moveProject p s w)) \<le> length (calls w) + length (listeners (projectState w))"
  by (simp add: moveProject_def updateListeners_calls_length split: option.splits)

lemma moveProject_length_objs:
  "\<forall>l\<in>set (listeners (projectState w)). keeps_projects l \<Longrightarrow>
   length (objs (heap (moveProject p s w))) = length (objs (heap w))"
  by (simp add: moveProject_def updateListeners_objs split: option.splits)

lemma moveProject_wf:
  assumes "wf_world w" and "\<forall>l\<in>set (listeners (projectState w)). keeps_projects l"
  shows "wf_world (moveProject p s w)"
  using assms(1)
  by (simp add: wf_world_def moveProject_projectState moveProject_length_objs [OF assms(2)])

lemma id_after_status_update:
  "id' (xs[a := (xs ! a)\<lparr>status := s\<rparr>] ! b) = id' (xs ! b)"
  by (cases "a < length xs") (simp_all add: nth_list_update list_update_beyond)

lemma moveProject_ids:
  "\<forall>l\<in>set (listeners (projectState w)). keeps_projects l \<Longrightarrow> ids (moveProject p s w) = ids w"
  by (simp add: ids_def items_def moveProject_def updateListeners_objs updateListeners_projectState
        id_after_status_update split: option.splits)

lemma addProject_ids:
  "wf_world w \<Longrightarrow> \<forall>l\<in>set (listeners (projectState w)). keeps_projects l \<Longrightarrow>
   ids (addProject r t d n w) = ids w @ [r]"
  by (simp add: ids_def addProject_items)

lemma moveProject_absent:
  assumes "projectId \<notin> set (ids w)"
  shows "moveProject projectId newStatus w = w"
proof -
  from assms
  have "find (\<lambda>prj. id' (objs (heap w) ! prj) = projectId) (projects (projectState w)) = None"
    by (auto simp: ids_def items_def find_None_iff)
  then show ?thesis by (simp add: moveProject_def)
qed

lemma moveProject_heap:
  assumes "find (\<lambda>prj. id' (objs (heap w) ! prj) = projectId) (projects (projectState w)) = Some prj"
    and "status (objs (heap w) ! prj) \<noteq> newStatus"
  shows "heap (moveProject projectId newStatus w) =
     foldl (\<lambda>h l. l (length (arrs h)) (h\<lparr>arrs := arrs h @ [projects (projectState w)]\<rparr>))
       ((heap w)\<lparr>objs := (objs (heap w))[prj := (objs (heap w) ! prj)\<lparr>status := newStatus\<rparr>]\<rparr>)
       (listeners (projectState w))"
  using assms by (simp add: moveProject_def updateListeners_heap)

lemma moveProject_found:
  assumes "find (\<lambda>prj. id' (objs (heap w) ! prj) = projectId) (projects (projectState w)) = Some prj"
    and "status (objs (heap w) ! prj) \<noteq> newStatus"
  shows "moveProject projectId newStatus w =
     updateListeners (w\<lparr>heap := (heap w)\<lparr>objs := (objs (heap w))
        [prj := (objs (heap w) ! prj)\<lparr>status := newStatus\<rparr>]\<rparr>\<rparr>)"
  using assms by (simp add: moveProject_def)

text \<open>When the ids are distinct, \<open>find\<close> yields the one item that has the id.\<close>

lemma find_by_unique_id:
  assumes "distinct (ids w)" and "k < length (items w)" and "id' (items w ! k) = projectId"
  shows "find (\<lambda>prj. id' (objs (heap w) ! prj) = projectId) (projects (projectState w)) =
           Some (projects (projectState w) ! k)"
proof -
  let ?ps = "projects (projectState w)"
  have k: "k < length ?ps" and here: "id' (objs (heap w) ! (?ps ! k)) = projectId"
    using assms(2,3) by (simp_all add: items_def)
  have "id' (objs (heap w) ! (?ps ! j)) \<noteq> projectId" if "j < k" for j
  proof -
    have len: "length (ids w) = length ?ps"
      by (simp add: ids_def items_def)
    have "ids w ! j = ids w ! k \<longleftrightarrow> j = k"
      using assms(1) that k len by (simp add: nth_eq_iff_index_eq)
    moreover have "ids w ! j = id' (objs (heap w) ! (?ps ! j))"
      and "ids w ! k = id' (objs (heap w) ! (?ps ! k))"
      using that k by (simp_all add: ids_def items_def)
    ultimately show ?thesis
      using that here by simp
  qed
  with k here show ?thesis
    by (auto simp: find_Some_iff)
qed

lemma items_after_update:
  assumes "distinct ps" and "k < length ps" and "ps ! k < length xs"
  shows "map (\<lambda>q. xs[ps ! k := x] ! q) ps = (map (\<lambda>q. xs ! q) ps)[k := x]"
proof (rule nth_equalityI)
  show "length (map (\<lambda>q. xs[ps ! k := x] ! q) ps) = length ((map (\<lambda>q. xs ! q) ps)[k := x])"
    by simp
next
  fix j
  assume "j < length (map (\<lambda>q. xs[ps ! k := x] ! q) ps)"
  then have j: "j < length ps" by simp
  have "ps ! j = ps ! k \<longleftrightarrow> j = k"
    using assms(1,2) j by (simp add: nth_eq_iff_index_eq)
  then show "map (\<lambda>q. xs[ps ! k := x] ! q) ps ! j = (map (\<lambda>q. xs ! q) ps)[k := x] ! j"
    using j assms(2,3) by (auto simp: nth_list_update)
qed

lemma board_AB_eval:
  "board_AB =
     \<lparr>projectState = \<lparr>listeners = [count_listener, count_listener], projects = [0, 1]\<rparr>,
      heap = \<lparr>objs = [\<lparr>id' = js ''0.1'', title = js ''A'', description = js ''first item'',
                        numPeople = Fin 2, status = Active\<rparr>,
                      \<lparr>id' = js ''0.2'', title = js ''B'', description = js ''second item'',
                        numPeople = Fin 3, status = Active\<rparr>],
              arrs = [[0], [0], [0, 1], [0, 1]], view = 4\<rparr>,
      calls = [(0, 0, [0]), (1, 1, [0]), (0, 2, [0, 1]), (1, 3, [0, 1])]\<rparr>"
  by (simp add: board_AB_def two_counters_eval addProject_def updateListeners_def Let_def
        count_listener_def)

lemma board_AB_facts:
  "wf_world board_AB"
  "ids board_AB = [js ''0.1'', js ''0.2'']"
  "items board_AB = [\<lparr>id' = js ''0.1'', title = js ''A'', description = js ''first item'',
                        numPeople = Fin 2, status = Active\<rparr>,
                      \<lparr>id' = js ''0.2'', title = js ''B'', description = js ''second item'',
                        numPeople = Fin 3, status = Active\<rparr>]"
  "\<forall>l\<in>set (listeners (projectState board_AB)). keeps_projects l"
  by (simp_all add: board_AB_eval wf_world_def ids_def items_def keeps_projects_count_listener)

lemma js_neq: "js ''nonexistent-id'' \<noteq> js ''0.1''" "js ''nonexistent-id'' \<noteq> js ''0.2''"
  "js ''0.1'' \<noteq> js ''0.2''" "js ''0.2'' \<noteq> js ''0.1''"
  by (simp_all add: js_def)

text \<open>
  Claim C3. \<open>moveProject(projectId, newStatus)\<close> with an id that no item of the store has, or
  with an id whose item (the one that \<open>find\<close> yields: the first with that id, the only one
  when the ids are distinct) already has the status \<open>newStatus\<close>, returns the world as it was:
  the same items, the same heap, and no call of a listener recorded.
\<close>

theorem moveProject_silent_noop:
  assumes "projectId \<notin> set (ids w) \<or>
           (\<exists>prj. find (\<lambda>prj. id' (objs (heap w) ! prj) = projectId) (projects (projectState w))
                    = Some prj \<and> status (objs (heap w) ! prj) = newStatus)"
  shows "moveProject projectId newStatus w = w"
  using assms
proof
  assume "projectId \<notin> set (ids w)"
  then show ?thesis by (rule moveProject_absent)
next
  assume "\<exists>prj. find (\<lambda>prj. id' (objs (heap w) ! prj) = projectId) (projects (projectState w))
                    = Some prj \<and> status (objs (heap w) ! prj) = newStatus"
  then show ?thesis by (auto simp: moveProject_def)
qed

theorem moveProject_silent_noop_witness:
  "moveProject (js ''nonexistent-id'') Finished board_AB = board_AB \<and>
   moveProject (js ''0.1'') Active board_AB = board_AB"
proof -
  have absent: "js ''nonexistent-id'' \<notin> set (ids board_AB)"
    by (simp add: board_AB_facts js_neq)
  have same: "\<exists>prj. find (\<lambda>prj. id' (objs (heap board_AB) ! prj) = js ''0.1'')
                     (projects (projectState board_AB)) = Some prj \<and>
                status (objs (heap board_AB) ! prj) = Active"
    by (simp add: board_AB_eval)
  show ?thesis
    using moveProject_silent_noop [of "js ''nonexistent-id''" board_AB Finished, OF disjI1, OF absent]
      moveProject_silent_noop [of "js ''0.1''" board_AB Active, OF disjI2, OF same]
    by simp
qed

text \<open>
  Claim C4. In a well-formed world, when \<open>find\<close> yields a project for \<open>projectId\<close> (the first
  with that id, the only one when the ids are distinct) whose status is not \<open>newStatus\<close>,
  \<open>moveProject\<close> is the notification round run on the world in which only
  the \<open>status\<close> field of that object was written; the store's array and listeners are as
  before, and every listener was called once, in order, with the references of the array.
  The heap afterwards is the heap with that one field written to which the listeners have
  been applied one after the other, in the order of registration, each once, each to a newly
  allocated array that holds the references of the store's array.
  Where the listeners write to no project, the items afterwards are the items before with the
  status of one item, the first with that id, replaced: same number of items, same order, every
  other item and every other field the same.
\<close>

theorem moveProject_changes_status_only:
  assumes wf: "wf_world w"
    and found: "find (\<lambda>prj. id' (objs (heap w) ! prj) = projectId) (projects (projectState w))
                  = Some prj"
    and differs: "status (objs (heap w) ! prj) \<noteq> newStatus"
  shows "moveProject projectId newStatus w =
           updateListeners (w\<lparr>heap := (heap w)\<lparr>objs := (objs (heap w))
              [prj := (objs (heap w) ! prj)\<lparr>status := newStatus\<rparr>]\<rparr>\<rparr>) \<and>
         projectState (moveProject projectId newStatus w) = projectState w \<and>
         map told (calls (moveProject projectId newStatus w)) =
           map told (calls w) @
           map (\<lambda>k. (k, projects (projectState w))) [0..<length (listeners (projectState w))] \<and>
         heap (moveProject projectId newStatus w) =
           foldl (\<lambda>h l. l (length (arrs h))
                      (h\<lparr>arrs := arrs h @ [projects (projectState w)]\<rparr>))
             ((heap w)\<lparr>objs := (objs (heap w))
                [prj := (objs (heap w) ! prj)\<lparr>status := newStatus\<rparr>]\<rparr>)
             (listeners (projectState w)) \<and>
         ((\<forall>l\<in>set (listeners (projectState w)). keeps_projects l) \<longrightarrow>
            (\<exists>k<length (items w).
               id' (items w ! k) = projectId \<and> (\<forall>j<k. id' (items w ! j) \<noteq> projectId) \<and>
               items (moveProject projectId newStatus w) =
                 (items w)[k := (items w ! k)\<lparr>status := newStatus\<rparr>]))"
proof -
  let ?ps = "projects (projectState w)" and ?xs = "objs (heap w)"
  let ?w1 = "w\<lparr>heap := (heap w)\<lparr>objs := ?xs[prj := (?xs ! prj)\<lparr>status := newStatus\<rparr>]\<rparr>\<rparr>"
  have run: "moveProject projectId newStatus w = updateListeners ?w1"
    using found differs by (rule moveProject_found)
  have st: "projectState (moveProject projectId newStatus w) = projectState w"
    by (rule moveProject_projectState)
  have tr: "map told (calls (moveProject projectId newStatus w)) =
           map told (calls w) @
           map (\<lambda>k. (k, ?ps)) [0..<length (listeners (projectState w))]"
    unfolding run using updateListeners_calls [of ?w1] by simp
  have its: "\<exists>k<length (items w).
               id' (items w ! k) = projectId \<and> (\<forall>j<k. id' (items w ! j) \<noteq> projectId) \<and>
               items (moveProject projectId newStatus w) =
                 (items w)[k := (items w ! k)\<lparr>status := newStatus\<rparr>]"
    if keeps: "\<forall>l\<in>set (listeners (projectState w)). keeps_projects l"
  proof -
    from found obtain k where k: "k < length ?ps" "?ps ! k = prj"
      "id' (?xs ! prj) = projectId" "\<forall>j<k. id' (?xs ! (?ps ! j)) \<noteq> projectId"
      by (auto simp: find_Some_iff)
    have valid: "?ps ! k < length ?xs" and dist: "distinct ?ps"
      using wf k(1) by (simp_all add: wf_world_def list_all_length)
    have "items (moveProject projectId newStatus w) = items ?w1"
      unfolding run using keeps by (simp add: updateListeners_items)
    also have "\<dots> = map (\<lambda>q. ?xs[?ps ! k := (?xs ! prj)\<lparr>status := newStatus\<rparr>] ! q) ?ps"
      by (simp add: items_def k(2))
    also have "\<dots> = (map (\<lambda>q. ?xs ! q) ?ps)[k := (?xs ! prj)\<lparr>status := newStatus\<rparr>]"
      using dist k(1) valid by (rule items_after_update)
    also have "\<dots> = (items w)[k := (items w ! k)\<lparr>status := newStatus\<rparr>]"
      using k(1,2) by (simp add: items_def)
    finally have "items (moveProject projectId newStatus w) =
        (items w)[k := (items w ! k)\<lparr>status := newStatus\<rparr>]" .
    moreover have "id' (items w ! k) = projectId"
      using k(1,2,3) by (simp add: items_def)
    moreover have "\<forall>j<k. id' (items w ! j) \<noteq> projectId"
      using k(1,4) by (simp add: items_def)
    moreover have "k < length (items w)"
      using k(1) by (simp add: items_def)
    ultimately show ?thesis by blast
  qed
  note hp = moveProject_heap [OF found differs]
  from run st tr hp its show ?thesis by blast
qed

theorem moveProject_changes_status_only_witness:
  "items (moveProject (js ''0.2'') Finished board_AB) =
     [\<lparr>id' = js ''0.1'', title = js ''A'', description = js ''first item'',
       numPeople = Fin 2, status = Active\<rparr>,
      \<lparr>id' = js ''0.2'', title = js ''B'', description = js ''second item'',
       numPeople = Fin 3, status = Finished\<rparr>] \<and>
   map told (calls (moveProject (js ''0.2'') Finished board_AB)) =
     map told (calls board_AB) @ [(0, [0, 1]), (1, [0, 1])] \<and>
   view (heap board_AB) = 4 \<and>
   view (heap (moveProject (js ''0.2'') Finished board_AB)) = 6 \<and>
   arrs (heap (moveProject (js ''0.2'') Finished board_AB)) =
     arrs (heap board_AB) @ [[0, 1], [0, 1]]"
proof -
  have found: "find (\<lambda>prj. id' (objs (heap board_AB) ! prj) = js ''0.2'')
                 (projects (projectState board_AB)) = Some 1"
    by (simp add: board_AB_eval js_neq)
  have differs: "status (objs (heap board_AB) ! 1) \<noteq> Finished"
    by (simp add: board_AB_eval)
  note T0 = moveProject_changes_status_only [OF board_AB_facts(1) found differs, THEN conjunct2]
  note calls_part = T0 [THEN conjunct2, THEN conjunct1]
  note heap_part = T0 [THEN conjunct2, THEN conjunct2, THEN conjunct1]
  note T = T0 [THEN conjunct2, THEN conjunct2, THEN conjunct2]
  have n: "length (listeners (projectState board_AB)) = 2"
    "projects (projectState board_AB) = [0, 1]"
    by (simp_all add: board_AB_eval)
  have hp: "view (heap board_AB) = 4"
    "view (heap (moveProject (js ''0.2'') Finished board_AB)) = 6"
    "arrs (heap (moveProject (js ''0.2'') Finished board_AB)) =
       arrs (heap board_AB) @ [[0, 1], [0, 1]]"
    unfolding heap_part by (simp_all add: board_AB_eval count_listener_def)
  from calls_part have tr: "map told (calls (moveProject (js ''0.2'') Finished board_AB)) =
     map told (calls board_AB) @ [(0, [0, 1]), (1, [0, 1])]"
    by (simp add: n upt_rec)
  from T board_AB_facts(4) obtain k where k: "k < length (items board_AB)"
    "id' (items board_AB ! k) = js ''0.2''"
    "items (moveProject (js ''0.2'') Finished board_AB) =
       (items board_AB)[k := (items board_AB ! k)\<lparr>status := Finished\<rparr>]"
    by blast
  from k(1) have "k = 0 \<or> k = 1"
    by (auto simp: board_AB_facts(3))
  with k(2) have "k = 1"
    by (auto simp: board_AB_facts(3) js_neq)
  with k(3) have "items (moveProject (js ''0.2'') Finished board_AB) =
     [\<lparr>id' = js ''0.1'', title = js ''A'', description = js ''first item'',
       numPeople = Fin 2, status = Active\<rparr>,
      \<lparr>id' = js ''0.2'', title = js ''B'', description = js ''second item'',
       numPeople = Fin 3, status = Finished\<rparr>]"
    by (simp add: board_AB_facts(3))
  with tr hp show ?thesis by simp
qed

section \<open>Sequences of calls\<close>

lemma perform_count:
  "length (items (perform operation w)) = length (items w) + length (drawn [operation])"
  by (cases operation)
     (simp_all add: items_def addProject_projectState moveProject_projectState addListener_def)

lemma drawn_Cons: "drawn (operation # rest) = drawn [operation] @ drawn rest"
  by (cases operation) simp_all

lemma run_count: "length (items (run ops w)) = length (items w) + length (drawn ops)"
proof (induction ops arbitrary: w)
  case Nil
  show ?case by simp
next
  case (Cons operation rest)
  show ?case
    using Cons.IH [of "perform operation w"] perform_count [of operation w]
      drawn_Cons [of operation rest]
    by simp
qed

text \<open>
  Claim C10. The store never removes an item: \<open>addProject\<close> makes the number of items one
  more, \<open>moveProject\<close> and \<open>addListener\<close> leave it as it is, and after any sequence of calls
  the number is the number before plus the number of \<open>addProject\<close> calls of the sequence, so
  it never decreases.
\<close>

theorem store_never_removes_items:
  "length (items (addProject r t d n w)) = length (items w) + 1 \<and>
   length (items (moveProject p s w)) = length (items w) \<and>
   length (items (addListener l w)) = length (items w) \<and>
   length (items (run ops w)) = length (items w) + length (drawn ops) \<and>
   length (items w) \<le> length (items (run ops w))"
  using run_count [of ops w]
  by (simp add: items_def addProject_projectState moveProject_projectState addListener_def)

lemma perform_listeners:
  "listeners (projectState (perform operation w)) =
     listeners (projectState w) @ registered [operation]"
  by (cases operation)
     (simp_all add: addProject_projectState moveProject_projectState addListener_def)

lemma registered_Cons: "registered (operation # rest) = registered [operation] @ registered rest"
  by (cases operation) simp_all

lemma addListener_wf: "wf_world (addListener l w) = wf_world w"
  by (simp add: wf_world_def addListener_def)

lemma addListener_ids: "ids (addListener l w) = ids w"
  by (simp add: ids_def items_def addListener_def)

lemma perform_wf:
  "wf_world w \<Longrightarrow> \<forall>l\<in>set (listeners (projectState w)). keeps_projects l \<Longrightarrow>
   wf_world (perform operation w)"
  by (cases operation) (simp_all add: addProject_wf moveProject_wf addListener_wf)

lemma perform_ids:
  "wf_world w \<Longrightarrow> \<forall>l\<in>set (listeners (projectState w)). keeps_projects l \<Longrightarrow>
   ids (perform operation w) = ids w @ drawn [operation]"
  by (cases operation) (simp_all add: addProject_ids moveProject_ids addListener_ids)

lemma run_ids:
  "wf_world w \<Longrightarrow> \<forall>l\<in>set (listeners (projectState w) @ registered ops). keeps_projects l \<Longrightarrow>
   ids (run ops w) = ids w @ drawn ops \<and> wf_world (run ops w)"
proof (induction ops arbitrary: w)
  case Nil
  then show ?case by simp
next
  case (Cons operation rest)
  have now: "\<forall>l\<in>set (listeners (projectState w)). keeps_projects l"
    using Cons.prems(2) by simp
  have later: "\<forall>l\<in>set (listeners (projectState (perform operation w)) @ registered rest).
      keeps_projects l"
    using Cons.prems(2) registered_Cons [of operation rest]
    by (simp add: perform_listeners)
  have "ids (run rest (perform operation w)) = ids (perform operation w) @ drawn rest \<and>
        wf_world (run rest (perform operation w))"
    using Cons.IH [OF perform_wf [OF Cons.prems(1) now] later] .
  then show ?case
    using perform_ids [OF Cons.prems(1) now, of operation] drawn_Cons [of operation rest]
    by simp
qed

text \<open>
  Every world that the public methods reach from a new store is well-formed, when the listeners
  registered on the way write to no project.
\<close>

lemma reachable_wf:
  assumes "\<forall>l\<in>set (registered ops). keeps_projects l"
  shows "wf_world (run ops (init_world v))"
proof -
  have "wf_world (init_world v)"
    by (simp add: wf_world_def init_world_def new_ProjectState_def)
  moreover have "\<forall>l\<in>set (listeners (projectState (init_world v)) @ registered ops).
      keeps_projects l"
    using assms by (simp add: init_world_def new_ProjectState_def)
  ultimately show ?thesis
    using run_ids by blast
qed

text \<open>
  Claim C1, amended. In a well-formed world whose listeners, and those that the sequence
  registers, write to no project: after any sequence of calls of \<open>addProject\<close>, \<open>moveProject\<close>
  and \<open>addListener\<close> the ids of the store's items are the ids before, unchanged and in the same
  order, followed by the strings that \<open>Math.random().toString()\<close> yielded in the \<open>addProject\<close>
  calls. So the ids are pairwise distinct exactly when the old ids and these strings are.
\<close>

theorem ids_distinct_iff_draws_distinct:
  assumes "wf_world w"
    and "\<forall>l\<in>set (listeners (projectState w) @ registered ops). keeps_projects l"
  shows "ids (run ops w) = ids w @ drawn ops \<and>
         (distinct (ids (run ops w)) \<longleftrightarrow> distinct (ids w @ drawn ops))"
  using run_ids [OF assms] by simp

theorem ids_distinct_iff_draws_distinct_witness:
  "ids (run [AddProject (js ''0.1'') (js ''A'') (js ''first item'') (Fin 2),
             AddProject (js ''0.2'') (js ''B'') (js ''second item'') (Fin 3)] two_counters) =
     [js ''0.1'', js ''0.2''] \<and>
   distinct (ids (run [AddProject (js ''0.1'') (js ''A'') (js ''first item'') (Fin 2),
             AddProject (js ''0.2'') (js ''B'') (js ''second item'') (Fin 3)] two_counters))"
proof -
  have wf: "wf_world two_counters"
    by (simp add: two_counters_eval wf_world_def)
  have keeps: "\<forall>l\<in>set (listeners (projectState two_counters) @
      registered [AddProject (js ''0.1'') (js ''A'') (js ''first item'') (Fin 2),
             AddProject (js ''0.2'') (js ''B'') (js ''second item'') (Fin 3)]). keeps_projects l"
    by (simp add: two_counters_eval keeps_projects_count_listener)
  have "ids two_counters = []"
    by (simp add: two_counters_eval ids_def items_def)
  then show ?thesis
    using ids_distinct_iff_draws_distinct [OF wf keeps] by (simp add: js_neq)
qed

text \<open>
  The claim as stated fails: nothing in \<open>addProject\<close> compares the new id with the ids in the
  store, so two calls in which \<open>Math.random().toString()\<close> yields the same string leave two
  items with one id.
\<close>

theorem ids_collide_counterexample:
  "\<not> distinct (ids (run [AddProject (js ''0.5'') (js ''A'') (js ''first item'') (Fin 2),
             AddProject (js ''0.5'') (js ''B'') (js ''second item'') (Fin 3)] (init_world (0::nat))))"
  by (simp add: init_world_def new_ProjectState_def addProject_def updateListeners_def Let_def
        ids_def items_def)

text \<open>
  In the earlier source file every id is the text of \<open>Math.random\<close>, so any two items have the
  same id.
\<close>

lemma addProject_app_same_id:
  "ids (addProject_app fnText t2 d2 n2 (addProject_app fnText t1 d1 n1 (init_world v))) =
     [fnText, fnText]"
  by (simp add: init_world_def new_ProjectState_def addProject_app_def Let_def ids_def items_def)

section \<open>Snapshots\<close>












section \<open>The single instance\<close>

lemma getInstance_cached: "instance' c = Some a \<Longrightarrow> getInstance c = (a, c)"
  by (simp add: getInstance_def)

lemma getInstance_caches: "instance' (snd (getInstance c)) = Some (fst (getInstance c))"
  by (simp add: getInstance_def Let_def split: option.splits)

lemma getInstances_cached: "instance' c = Some a \<Longrightarrow> getInstances n c = (replicate n a, c)"
  by (induction n) (simp_all add: getInstance_cached)

lemma getInstance_class_loaded:
  "getInstance class_loaded = (0, \<lparr>instance' = Some 0, constructed = [new_ProjectState]\<rparr>)"
  by (simp add: getInstance_def class_loaded_def Let_def)

text \<open>The store of the module, \<open>ProjectState.getInstance()\<close> at load, is the one of \<open>init_world\<close>.\<close>

lemma module_store_is_the_instance:
  "constructed (snd (getInstance class_loaded)) ! fst (getInstance class_loaded) =
     projectState (init_world v)"
  by (simp add: getInstance_class_loaded init_world_def)

text \<open>
  Claim C9. A call of \<open>getInstance\<close> right after another returns the same reference and
  constructs nothing. From the class as loaded, where no store exists, any number \<open>n\<close> of
  calls returns \<open>n\<close> times the reference of the one object that the first call constructed
  and cached, and at most one \<open>ProjectState\<close> has been constructed.
\<close>

theorem getInstance_single_instance:
  fixes c :: "'v ProjectState_class"
  shows "fst (getInstance (snd (getInstance c))) = fst (getInstance c) \<and>
   snd (getInstance (snd (getInstance c))) = snd (getInstance c) \<and>
   getInstances n (class_loaded :: 'v ProjectState_class) =
     (replicate n 0,
      if n = 0 then class_loaded else \<lparr>instance' = Some 0, constructed = [new_ProjectState]\<rparr>) \<and>
   length (constructed (snd (getInstances n (class_loaded :: 'v ProjectState_class)))) \<le> 1"
proof -
  let ?made = "\<lparr>instance' = Some 0, constructed = [new_ProjectState]\<rparr> :: 'v ProjectState_class"
  have again: "getInstance (snd (getInstance c)) = (fst (getInstance c), snd (getInstance c))"
    using getInstance_caches [of c] by (rule getInstance_cached)
  have many: "getInstances n (class_loaded :: 'v ProjectState_class) =
     (replicate n 0, if n = 0 then class_loaded else ?made)"
  proof (cases n)
    case 0
    then show ?thesis by simp
  next
    case (Suc m)
    have "getInstances m ?made = (replicate m 0, ?made)"
      by (rule getInstances_cached) simp
    then show ?thesis
      using Suc by (simp add: getInstance_class_loaded)
  qed
  have "length (constructed (snd (getInstances n (class_loaded :: 'v ProjectState_class)))) \<le> 1"
    unfolding many by (simp add: class_loaded_def)
  with again many show ?thesis by simp
qed

section \<open>The form\<close>

lemma validate_titleValidatable:
  "validate (titleValidatable s) \<longleftrightarrow> trim s \<noteq> []"
  by (simp add: validate_def titleValidatable_def)

lemma validate_descriptionValidatable:
  "validate (descriptionValidatable s) \<longleftrightarrow> trim s \<noteq> [] \<and> 5 \<le> length s \<and> length s \<le> 500"
  by (auto simp: validate_def descriptionValidatable_def num_ge_def)

lemma validate_peopleValidatable:
  "validate (peopleValidatable s) \<longleftrightarrow> trim s \<noteq> []"
  by (simp add: validate_def peopleValidatable_def)

text \<open>
  What the three calls of \<open>validate\<close> decide: the people are a string, so their bounds 2 and 50
  are never compared.
\<close>

lemma gatherUserInput_closed_form:
  "snd (gatherUserInput toNumber this) = None \<longleftrightarrow>
     trim (titleInputElement this) = [] \<and>
     (trim (descriptionInputElement this) = [] \<or> length (descriptionInputElement this) < 5 \<or>
      500 < length (descriptionInputElement this)) \<and>
     trim (peopleInputElement this) = []"
  by (auto simp: gatherUserInput_def Let_def validate_titleValidatable
        validate_descriptionValidatable validate_peopleValidatable)

text \<open>
  Claim C6. \<open>gatherUserInput\<close> returns nothing exactly when \<open>validate\<close> fails for the title,
  for the description and for the people, all three; then it alerts \<open>invalid input\<close>. As soon
  as one of the three validates it returns the title and the description as entered and the
  people converted to a number. On the strings entered: it returns nothing exactly when the
  title is blank, the description is blank or not 5 to 500 code units long, and the people are
  blank.
\<close>

theorem gatherUserInput_rejects_iff_all_invalid:
  "(snd (gatherUserInput toNumber this) = None \<longleftrightarrow>
      \<not> validate (titleValidatable (titleInputElement this)) \<and>
      \<not> validate (descriptionValidatable (descriptionInputElement this)) \<and>
      \<not> validate (peopleValidatable (peopleInputElement this))) \<and>
   (validate (titleValidatable (titleInputElement this)) \<or>
    validate (descriptionValidatable (descriptionInputElement this)) \<or>
    validate (peopleValidatable (peopleInputElement this)) \<longrightarrow>
      gatherUserInput toNumber this =
        ([], Some (titleInputElement this, descriptionInputElement this,
                   toNumber (peopleInputElement this)))) \<and>
   (\<not> validate (titleValidatable (titleInputElement this)) \<and>
    \<not> validate (descriptionValidatable (descriptionInputElement this)) \<and>
    \<not> validate (peopleValidatable (peopleInputElement this)) \<longrightarrow>
      gatherUserInput toNumber this = ([js ''invalid input''], None)) \<and>
   (snd (gatherUserInput toNumber this) = None \<longleftrightarrow>
      trim (titleInputElement this) = [] \<and>
      (trim (descriptionInputElement this) = [] \<or> length (descriptionInputElement this) < 5 \<or>
       500 < length (descriptionInputElement this)) \<and>
      trim (peopleInputElement this) = [])"
proof -
  let ?t = "validate (titleValidatable (titleInputElement this))"
  let ?d = "validate (descriptionValidatable (descriptionInputElement this))"
  let ?p = "validate (peopleValidatable (peopleInputElement this))"
  have rejected: "gatherUserInput toNumber this = ([js ''invalid input''], None)"
    if "\<not> ?t \<and> \<not> ?d \<and> \<not> ?p"
    using that by (simp add: gatherUserInput_def Let_def)
  have accepted: "gatherUserInput toNumber this =
      ([], Some (titleInputElement this, descriptionInputElement this,
                 toNumber (peopleInputElement this)))"
    if "?t \<or> ?d \<or> ?p"
    using that by (auto simp: gatherUserInput_def Let_def)
  have "snd (gatherUserInput toNumber this) = None \<longleftrightarrow> \<not> ?t \<and> \<not> ?d \<and> \<not> ?p"
  proof (cases "?t \<or> ?d \<or> ?p")
    case True
    with accepted show ?thesis by auto
  next
    case False
    with rejected show ?thesis by auto
  qed
  with accepted rejected gatherUserInput_closed_form [of toNumber this]
  show ?thesis by blast
qed

theorem gatherUserInput_rejects_iff_all_invalid_witness:
  "gatherUserInput toNumber3
     \<lparr>titleInputElement = js '''', descriptionInputElement = js ''abc'',
      peopleInputElement = js ''3''\<rparr> = ([], Some (js '''', js ''abc'', Fin 3)) \<and>
   gatherUserInput toNumber3
     \<lparr>titleInputElement = js '' '', descriptionInputElement = js ''abc'',
      peopleInputElement = js ''''\<rparr> = ([js ''invalid input''], None)"
proof -
  have v: "validate (peopleValidatable (js ''3''))" "\<not> validate (titleValidatable (js '' ''))"
    "\<not> validate (descriptionValidatable (js ''abc''))" "\<not> validate (peopleValidatable (js ''''))"
    by (simp_all add: validate_titleValidatable validate_descriptionValidatable
          validate_peopleValidatable trim_def isWhiteSpace_def js_def)
  show ?thesis
    using gatherUserInput_rejects_iff_all_invalid [of toNumber3
        "\<lparr>titleInputElement = js '''', descriptionInputElement = js ''abc'',
          peopleInputElement = js ''3''\<rparr>", THEN conjunct2]
      gatherUserInput_rejects_iff_all_invalid [of toNumber3
        "\<lparr>titleInputElement = js '' '', descriptionInputElement = js ''abc'',
          peopleInputElement = js ''''\<rparr>", THEN conjunct2]
      v
    by (simp add: toNumber3_def)
qed

section \<open>The drop target\<close>

lemma dragOverHandler_first_plain:
  assumes "dataTransfer event = Some dt" and "types dt = js ''text/plain'' # rest"
  shows "dragOverHandler event this =
     (event\<lparr>defaultPrevented := True\<rparr>,
      this\<lparr>ul_classList := classList_add (js ''droppable'') (ul_classList this)\<rparr>)"
  using assms by (simp add: dragOverHandler_def preventDefault_def)

lemma dragOverHandler_first_other:
  assumes "dataTransfer event = None \<or>
           (\<exists>dt. dataTransfer event = Some dt \<and>
                 (types dt = [] \<or> (\<exists>first rest. types dt = first # rest \<and> first \<noteq> js ''text/plain'')))"
  shows "dragOverHandler event this = (event, this)"
  using assms by (auto simp: dragOverHandler_def)

lemma droppable_added: "js ''droppable'' \<in> set (classList_add (js ''droppable'') cl)"
  by (simp add: classList_add_def)

lemma no_plain_first_other:
  assumes "\<forall>dt. dataTransfer event = Some dt \<longrightarrow> js ''text/plain'' \<notin> set (types dt)"
  shows "dataTransfer event = None \<or>
           (\<exists>dt. dataTransfer event = Some dt \<and>
                 (types dt = [] \<or> (\<exists>first rest. types dt = first # rest \<and> first \<noteq> js ''text/plain'')))"
proof (cases "dataTransfer event")
  case None
  then show ?thesis by simp
next
  case (Some dt)
  with assms have "js ''text/plain'' \<notin> set (types dt)" by simp
  then have "types dt = [] \<or> (\<exists>first rest. types dt = first # rest \<and> first \<noteq> js ''text/plain'')"
    by (cases "types dt") auto
  with Some show ?thesis by simp
qed

lemma hoverAndRelease_unclaimed:
  assumes "dragOverHandler \<lparr>dataTransfer = payload, defaultPrevented = False\<rparr> this =
             (\<lparr>dataTransfer = payload, defaultPrevented = False\<rparr>, this)"
  shows "hoverAndRelease payload this w = Some (this, w, False)"
  using assms by (simp add: hoverAndRelease_def)

lemma getData_absent: "format \<notin> set (types dt) \<Longrightarrow> getData format dt = []"
  by (simp add: getData_def types_def map_of_eq_None_iff [THEN iffD2])

lemma dropHandler_without_plain:
  assumes "dataTransfer event = Some dt" and "js ''text/plain'' \<notin> set (types dt)"
    and "[] \<notin> set (ids w)"
  shows "dropHandler event this w = Some w"
  using assms by (simp add: dropHandler_def Let_def getData_absent moveProject_absent)

text \<open>
  Claim C7, amended. When the payload of a hover does not declare \<open>text/plain\<close>, and more
  generally when \<open>text/plain\<close> is not the first format it declares (or there is no payload),
  \<open>dragOverHandler\<close> leaves the event and the list as they are: it neither cancels the event
  nor adds \<open>droppable\<close>; released there, the payload reaches no \<open>dropHandler\<close> and the world
  is unchanged. Were \<open>dropHandler\<close> run on a payload that does not declare \<open>text/plain\<close>,
  it would read the empty string as the id and leave a store in which no id is empty as it
  is. When \<open>text/plain\<close> is the first format declared, \<open>dragOverHandler\<close> cancels the
  event and the class list of the \<open>ul\<close> holds \<open>droppable\<close>.
\<close>

theorem dragOverHandler_claims_first_plain_only:
  "((\<forall>dt. dataTransfer event = Some dt \<longrightarrow> js ''text/plain'' \<notin> set (types dt)) \<longrightarrow>
      dragOverHandler event this = (event, this) \<and>
      hoverAndRelease (dataTransfer event) this w = Some (this, w, False)) \<and>
   (dataTransfer event = None \<or>
    (\<exists>dt. dataTransfer event = Some dt \<and>
          (types dt = [] \<or> (\<exists>first rest. types dt = first # rest \<and> first \<noteq> js ''text/plain''))) \<longrightarrow>
      dragOverHandler event this = (event, this) \<and>
      hoverAndRelease (dataTransfer event) this w = Some (this, w, False)) \<and>
   ((\<exists>dt. dataTransfer event = Some dt \<and> js ''text/plain'' \<notin> set (types dt)) \<and>
    [] \<notin> set (ids w) \<longrightarrow>
      dropHandler event this w = Some w) \<and>
   ((\<exists>dt rest. dataTransfer event = Some dt \<and> types dt = js ''text/plain'' # rest) \<longrightarrow>
      defaultPrevented (fst (dragOverHandler event this)) \<and>
      js ''droppable'' \<in> set (ul_classList (snd (dragOverHandler event this))) \<and>
      dragOverHandler event this =
        (event\<lparr>defaultPrevented := True\<rparr>,
         this\<lparr>ul_classList := classList_add (js ''droppable'') (ul_classList this)\<rparr>))"
proof -
  have ignored: "dropHandler event this w = Some w"
    if "(\<exists>dt. dataTransfer event = Some dt \<and> js ''text/plain'' \<notin> set (types dt)) \<and>
        [] \<notin> set (ids w)"
    using that dropHandler_without_plain by blast
  have other: "dragOverHandler event this = (event, this) \<and>
      hoverAndRelease (dataTransfer event) this w = Some (this, w, False)"
    if first: "dataTransfer event = None \<or>
      (\<exists>dt. dataTransfer event = Some dt \<and>
          (types dt = [] \<or> (\<exists>first rest. types dt = first # rest \<and> first \<noteq> js ''text/plain'')))"
  proof -
    let ?fresh = "\<lparr>dataTransfer = dataTransfer event, defaultPrevented = False\<rparr>"
    have "dataTransfer ?fresh = None \<or>
      (\<exists>dt. dataTransfer ?fresh = Some dt \<and>
          (types dt = [] \<or> (\<exists>first rest. types dt = first # rest \<and> first \<noteq> js ''text/plain'')))"
      using first by simp
    then have "dragOverHandler ?fresh this = (?fresh, this)"
      by (rule dragOverHandler_first_other)
    then have "hoverAndRelease (dataTransfer event) this w = Some (this, w, False)"
      by (rule hoverAndRelease_unclaimed)
    with dragOverHandler_first_other [OF first] show ?thesis by simp
  qed
  have absent: "dragOverHandler event this = (event, this) \<and>
      hoverAndRelease (dataTransfer event) this w = Some (this, w, False)"
    if "\<forall>dt. dataTransfer event = Some dt \<longrightarrow> js ''text/plain'' \<notin> set (types dt)"
    using other [OF no_plain_first_other [OF that]] .
  have plain: "defaultPrevented (fst (dragOverHandler event this)) \<and>
      js ''droppable'' \<in> set (ul_classList (snd (dragOverHandler event this))) \<and>
      dragOverHandler event this =
        (event\<lparr>defaultPrevented := True\<rparr>,
         this\<lparr>ul_classList := classList_add (js ''droppable'') (ul_classList this)\<rparr>)"
    if "\<exists>dt rest. dataTransfer event = Some dt \<and> types dt = js ''text/plain'' # rest"
  proof -
    from that obtain dt rest where "dataTransfer event = Some dt"
      "types dt = js ''text/plain'' # rest" by blast
    then show ?thesis
      by (simp add: dragOverHandler_first_plain droppable_added)
  qed
  from absent other ignored plain show ?thesis by blast
qed

theorem dragOverHandler_claims_first_plain_only_witness:
  "dragOverHandler \<lparr>dataTransfer = Some html_payload, defaultPrevented = False\<rparr> finished_list =
     (\<lparr>dataTransfer = Some html_payload, defaultPrevented = False\<rparr>, finished_list) \<and>
   hoverAndRelease (Some html_payload) finished_list board_AB =
     Some (finished_list, board_AB, False) \<and>
   dropHandler \<lparr>dataTransfer = Some html_payload, defaultPrevented = False\<rparr> finished_list
       board_AB = Some board_AB \<and>
   dragOverHandler \<lparr>dataTransfer = Some plain_payload, defaultPrevented = False\<rparr> finished_list =
     (\<lparr>dataTransfer = Some plain_payload, defaultPrevented = True\<rparr>,
      \<lparr>type' = finished, ul_classList = [js ''droppable'']\<rparr>)"
proof -
  have nonempty: "[] \<notin> set (ids board_AB)"
    by (simp add: board_AB_facts js_def)
  have absent: "\<forall>dt. dataTransfer \<lparr>dataTransfer = Some html_payload, defaultPrevented = False\<rparr>
      = Some dt \<longrightarrow> js ''text/plain'' \<notin> set (types dt)"
    by (simp add: html_payload_def types_def js_def)
  have first: "\<exists>dt rest. dataTransfer \<lparr>dataTransfer = Some plain_payload, defaultPrevented = False\<rparr>
      = Some dt \<and> types dt = js ''text/plain'' # rest"
    by (simp add: plain_payload_def types_def)
  note T = dragOverHandler_claims_first_plain_only
  from T [of "\<lparr>dataTransfer = Some html_payload, defaultPrevented = False\<rparr>" finished_list board_AB]
    absent
    nonempty
  have 1: "dragOverHandler \<lparr>dataTransfer = Some html_payload, defaultPrevented = False\<rparr> finished_list =
     (\<lparr>dataTransfer = Some html_payload, defaultPrevented = False\<rparr>, finished_list) \<and>
   hoverAndRelease (Some html_payload) finished_list board_AB =
     Some (finished_list, board_AB, False) \<and>
   dropHandler \<lparr>dataTransfer = Some html_payload, defaultPrevented = False\<rparr> finished_list
       board_AB = Some board_AB"
    by simp
  from T [of "\<lparr>dataTransfer = Some plain_payload, defaultPrevented = False\<rparr>" finished_list board_AB]
    first
  have 2: "dragOverHandler \<lparr>dataTransfer = Some plain_payload, defaultPrevented = False\<rparr> finished_list =
     (\<lparr>dataTransfer = Some plain_payload, defaultPrevented = True\<rparr>,
      \<lparr>type' = finished, ul_classList = [js ''droppable'']\<rparr>)"
    by (simp add: finished_list_def classList_add_def)
  from 1 2 show ?thesis by simp
qed

text \<open>
  The claim as stated fails in its converse: \<open>dragOverHandler\<close> looks at \<open>types[0]\<close> only, so
  a payload that declares \<open>text/html\<close> and then \<open>text/plain\<close> is not claimed.
\<close>

theorem plain_not_first_counterexample:
  "js ''text/plain'' \<in> set (types html_then_plain_payload) \<and>
   dragOverHandler \<lparr>dataTransfer = Some html_then_plain_payload, defaultPrevented = False\<rparr>
       finished_list =
     (\<lparr>dataTransfer = Some html_then_plain_payload, defaultPrevented = False\<rparr>, finished_list) \<and>
   \<not> defaultPrevented (fst (dragOverHandler
        \<lparr>dataTransfer = Some html_then_plain_payload, defaultPrevented = False\<rparr> finished_list)) \<and>
   js ''droppable'' \<notin> set (ul_classList (snd (dragOverHandler
        \<lparr>dataTransfer = Some html_then_plain_payload, defaultPrevented = False\<rparr> finished_list)))"
  by (simp add: html_then_plain_payload_def types_def dragOverHandler_def finished_list_def js_def)

lemma map_of_filter_other: "map_of (filter (\<lambda>e. fst e \<noteq> k) es) k = None"
  by (induction es) auto

lemma getData_setData: "getData format (setData format d dt) = d"
  by (simp add: getData_def setData_def map_add_def map_of_filter_other)

lemma dragStartHandler_payload:
  assumes "dragStartHandler item h start = Some picked"
  shows "\<exists>dt. dataTransfer picked = Some dt \<and>
              getData (js ''text/plain'') dt = id' (objs h ! project item)"
proof (cases "dataTransfer start")
  case None
  with assms show ?thesis by (simp add: dragStartHandler_def)
next
  case (Some dt0)
  have "getData (js ''text/plain'')
          ((setData (js ''text/plain'') (id' (objs h ! project item)) dt0)
             \<lparr>effectAllowed := js ''move''\<rparr>) = id' (objs h ! project item)"
    using getData_setData [of "js ''text/plain''" "id' (objs h ! project item)" dt0]
    by (simp add: getData_def)
  with assms Some show ?thesis
    by (auto simp: dragStartHandler_def)
qed

text \<open>
  Claim C8. On a drop whose event has a payload, \<open>dropHandler\<close> does one thing: it calls
  \<open>moveProject\<close> on the store with the string that the payload holds for \<open>text/plain\<close> and
  with the status of its own list, \<open>Active\<close> for \<open>'active'\<close> and \<open>Finished\<close> for \<open>'finished'\<close>.
  When the payload is the one that \<open>dragStartHandler\<close> of an item made, that string is the id
  of the item's project. The drop leaves the store's array and listeners as they are and
  starts at most one notification round.
\<close>

theorem dropHandler_requests_one_transition:
  "(dataTransfer event = Some dt \<longrightarrow>
      dropHandler event this w =
        Some (moveProject (getData (js ''text/plain'') dt)
                (case type' this of active \<Rightarrow> Active | finished \<Rightarrow> Finished) w)) \<and>
   (dragStartHandler item h start = Some picked \<and> dataTransfer event = dataTransfer picked \<longrightarrow>
      dropHandler event this w =
        Some (moveProject (id' (objs h ! project item))
                (case type' this of active \<Rightarrow> Active | finished \<Rightarrow> Finished) w)) \<and>
   (\<forall>w1. dropHandler event this w = Some w1 \<longrightarrow>
      projectState w1 = projectState w \<and>
      length (calls w1) \<le> length (calls w) + length (listeners (projectState w)))"
proof -
  have once: "projectState w1 = projectState w \<and>
      length (calls w1) \<le> length (calls w) + length (listeners (projectState w))"
    if "dropHandler event this w = Some w1" for w1
    using that
    by (auto simp: dropHandler_def Let_def moveProject_projectState moveProject_calls_length
          split: option.splits)
  have general: "dropHandler event this w =
        Some (moveProject (getData (js ''text/plain'') dt)
                (case type' this of active \<Rightarrow> Active | finished \<Rightarrow> Finished) w)"
    if "dataTransfer event = Some dt" for event dt
    using that by (cases "type' this") (simp_all add: dropHandler_def Let_def)
  have round: "dropHandler event this w =
        Some (moveProject (id' (objs h ! project item))
                (case type' this of active \<Rightarrow> Active | finished \<Rightarrow> Finished) w)"
    if "dragStartHandler item h start = Some picked \<and> dataTransfer event = dataTransfer picked"
  proof -
    from that dragStartHandler_payload [of item h start picked] obtain dt where
      "dataTransfer event = Some dt" "getData (js ''text/plain'') dt = id' (objs h ! project item)"
      by auto
    with general [of event dt] show ?thesis by simp
  qed
  from general [of event dt] round once show ?thesis by blast
qed

theorem dropHandler_requests_one_transition_witness:
  "dropHandler \<lparr>dataTransfer = Some plain_payload, defaultPrevented = False\<rparr> finished_list board_AB =
     Some (moveProject (js ''0.2'') Finished board_AB) \<and>
   projectState (moveProject (js ''0.2'') Finished board_AB) = projectState board_AB \<and>
   length (calls (moveProject (js ''0.2'') Finished board_AB)) \<le> 6 \<and>
   dragStartHandler item_B (heap board_AB) \<lparr>dataTransfer = Some empty_payload, defaultPrevented = False\<rparr> =
     Some \<lparr>dataTransfer = Some plain_payload, defaultPrevented = False\<rparr>"
proof -
  have start: "dragStartHandler item_B (heap board_AB)
      \<lparr>dataTransfer = Some empty_payload, defaultPrevented = False\<rparr> =
     Some \<lparr>dataTransfer = Some plain_payload, defaultPrevented = False\<rparr>"
    by (simp add: dragStartHandler_def item_B_def empty_payload_def plain_payload_def setData_def
          board_AB_def two_counters_eval addProject_def updateListeners_def Let_def
          count_listener_def)
  have B: "id' (objs (heap board_AB) ! project item_B) = js ''0.2''"
    by (simp add: item_B_def board_AB_def two_counters_eval addProject_def updateListeners_def
          Let_def count_listener_def)
  note T = dropHandler_requests_one_transition
    [of "\<lparr>dataTransfer = Some plain_payload, defaultPrevented = False\<rparr>" plain_payload
        finished_list board_AB item_B "heap board_AB"
        "\<lparr>dataTransfer = Some empty_payload, defaultPrevented = False\<rparr>"
        "\<lparr>dataTransfer = Some plain_payload, defaultPrevented = False\<rparr>", THEN conjunct2]
  from T start have "dropHandler \<lparr>dataTransfer = Some plain_payload, defaultPrevented = False\<rparr>
      finished_list board_AB =
     Some (moveProject (id' (objs (heap board_AB) ! project item_B)) Finished board_AB)"
    by (simp add: finished_list_def)
  with B have drop: "dropHandler \<lparr>dataTransfer = Some plain_payload, defaultPrevented = False\<rparr>
      finished_list board_AB = Some (moveProject (js ''0.2'') Finished board_AB)"
    by simp
  have n: "length (calls board_AB) = 4" "length (listeners (projectState board_AB)) = 2"
    by (simp_all add: board_AB_eval)
  from T drop have "projectState (moveProject (js ''0.2'') Finished board_AB) =
      projectState board_AB \<and>
    length (calls (moveProject (js ''0.2'') Finished board_AB)) \<le>
      length (calls board_AB) + length (listeners (projectState board_AB))"
    by blast
  with drop start show ?thesis by (simp add: n)
qed

end
